theory Spec2Isabelle
  imports
    Complex_Main
    "HOL-Library.Multiset"
    "HOL-Library.Char_ord"
    "HOL-Library.List_Lexorder"
    "HOL-Library.Product_Lexorder"
begin

section \<open>The dataset\<close>

text \<open>
  \<^verbatim>\<open>app.py\<close> reads one CSV file into a pandas data frame and consumes four of its
  columns. A cell that is empty in the file is pandas' missing value (NaN), here \<open>None\<close>.
  \<open>Make\<close> and \<open>Electric Vehicle Type\<close> are text (a \<open>string\<close> is the UTF-8 bytes, whose
  lexicographic order is Python's order of code points), \<open>Model Year\<close> is an integer and
  \<open>Electric Range\<close> a number. Numbers are exact rationals here: the rounding of 64-bit
  floats is not modelled.
\<close>

record row =
  Make :: "string option"
  Model_Year :: "int option"
  Electric_Vehicle_Type :: "string option"
  Electric_Range :: "rat option"

text \<open>
  A data frame is its column labels and its rows. A field of a row whose column the
  frame lacks is never read: selecting a missing column raises \<open>KeyError\<close>.
\<close>

record dataframe =
  columns :: "string list"
  rows :: "row list"

datatype exn = KeyError string

text \<open>Rows of the derived tables: the group key and the aggregate.\<close>

type_synonym ev_count = "(string \<times> int) \<times> nat"
type_synonym avg_range = "string \<times> rat option"

section \<open>The pandas operations used\<close>

text \<open>
  \<open>groupby\<close> is called with its defaults \<open>sort=True\<close> and \<open>dropna=True\<close>: a row whose key
  is missing belongs to no group, and the groups come out in ascending order of their keys.
\<close>

definition group_keys :: "('r \<Rightarrow> 'k::linorder option) \<Rightarrow> 'r list \<Rightarrow> 'k list" where
  "group_keys key rs = sort (remdups (List.map_filter key rs))"

definition group_rows :: "('r \<Rightarrow> 'k option) \<Rightarrow> 'r list \<Rightarrow> 'k \<Rightarrow> 'r list" where
  "group_rows key rs k = filter (\<lambda>r. key r = Some k) rs"

text \<open>\<open>.size()\<close>: the number of rows of each group, whatever their other fields hold.\<close>

definition groupby_size :: "('r \<Rightarrow> 'k::linorder option) \<Rightarrow> 'r list \<Rightarrow> ('k \<times> nat) list" where
  "groupby_size key rs = map (\<lambda>k. (k, length (group_rows key rs k))) (group_keys key rs)"

text \<open>
  \<open>.mean()\<close> (with \<open>skipna\<close>) walks over the values of a group, adds those that are not
  missing and counts them, and divides at the end; with nothing counted the result is NaN.
\<close>

definition observe :: "rat option \<Rightarrow> rat \<times> nat \<Rightarrow> rat \<times> nat" where
  "observe v acc = (case v of None \<Rightarrow> acc | Some x \<Rightarrow> (fst acc + x, Suc (snd acc)))"

definition mean :: "rat option list \<Rightarrow> rat option" where
  "mean vs =
     (let acc = fold observe vs (0, 0)
      in if snd acc = 0 then None else Some (fst acc / of_nat (snd acc)))"

definition groupby_mean ::
  "('r \<Rightarrow> 'k::linorder option) \<Rightarrow> ('r \<Rightarrow> rat option) \<Rightarrow> 'r list \<Rightarrow> ('k \<times> rat option) list" where
  "groupby_mean key val rs =
     map (\<lambda>k. (k, mean (map val (group_rows key rs k)))) (group_keys key rs)"

text \<open>
  \<open>sort_values(by=..., ascending=False)\<close> computes an indexer and takes the rows at it.
  The indexer (pandas' \<open>nargsort\<close>) sets the positions of missing values aside, reverses
  the remaining values and their positions, sorts them ascending with numpy's \<open>argsort\<close>,
  reverses the outcome and appends the positions of the missing values
  (\<open>na_position='last'\<close>). The call leaves \<open>kind\<close> at its default \<open>'quicksort'\<close>; which
  permutation numpy returns for equal values is not fixed by \<^verbatim>\<open>app.py\<close>, so \<open>argsort\<close> is
  a parameter.
\<close>

definition nargsort :: "('a list \<Rightarrow> nat list) \<Rightarrow> 'a option list \<Rightarrow> nat list" where
  "nargsort argsort items =
     (let idx = [0..<length items];
          non_nan_idx = rev (filter (\<lambda>i. items ! i \<noteq> None) idx);
          non_nans = map (\<lambda>i. the (items ! i)) non_nan_idx;
          nan_idx = filter (\<lambda>i. items ! i = None) idx;
          indexer = rev (map (\<lambda>j. non_nan_idx ! j) (argsort non_nans))
      in indexer @ nan_idx)"

definition take_rows :: "nat list \<Rightarrow> 'r list \<Rightarrow> 'r list" where
  "take_rows indexer rs = map (\<lambda>i. rs ! i) indexer"

definition sort_values :: "('a list \<Rightarrow> nat list) \<Rightarrow> ('r \<Rightarrow> 'a option) \<Rightarrow> 'r list \<Rightarrow> 'r list" where
  "sort_values argsort col rs = take_rows (nargsort argsort (map col rs)) rs"

text \<open>
  What every sorting kind of numpy guarantees of \<open>argsort\<close>: the result is a permutation
  of the positions, and the values read in that order ascend.
\<close>

definition is_argsort :: "('a::linorder list \<Rightarrow> nat list) \<Rightarrow> bool" where
  "is_argsort argsort \<longleftrightarrow>
     (\<forall>xs. mset (argsort xs) = mset [0..<length xs] \<and> sorted (map (\<lambda>i. xs ! i) (argsort xs)))"

text \<open>One such \<open>argsort\<close>, by insertion.\<close>

definition insertion_argsort :: "'a::linorder list \<Rightarrow> nat list" where
  "insertion_argsort xs = map snd (sort_key fst (zip xs [0..<length xs]))"

text \<open>\<open>.head(n)\<close>\<close>

definition head :: "nat \<Rightarrow> 'r list \<Rightarrow> 'r list" where
  "head n rs = take n rs"

section \<open>The aggregation\<close>

text \<open>
  The local variables of \<open>load_and_analyze_data\<close> once the file is read. A table that is
  not assigned yet is shown empty; each is assigned before it is read.
\<close>

record frame =
  df :: dataframe
  ev_counts_by_make_year :: "ev_count list"
  top_10_ev_counts :: "ev_count list"
  avg_range_by_type :: "avg_range list"

definition enter :: "dataframe \<Rightarrow> frame" where
  "enter d = \<lparr>df = d, ev_counts_by_make_year = [], top_10_ev_counts = [], avg_range_by_type = []\<rparr>"

definition make_year :: "row \<Rightarrow> (string \<times> int) option" where
  "make_year r =
     (case Make r of None \<Rightarrow> None
      | Some m \<Rightarrow> (case Model_Year r of None \<Rightarrow> None | Some y \<Rightarrow> Some (m, y)))"

definition total_evs :: "ev_count \<Rightarrow> nat option" where
  "total_evs c = Some (snd c)"

definition average :: "avg_range \<Rightarrow> rat option" where
  "average a = snd a"

definition and_then :: "exn + 'a \<Rightarrow> ('a \<Rightarrow> exn + 'b) \<Rightarrow> exn + 'b" where
  "and_then r f = (case r of Inl e \<Rightarrow> Inl e | Inr x \<Rightarrow> f x)"

text \<open>Line 33: \<open>df.groupby(['Make', 'Model Year']).size().reset_index(name='Total EVs')\<close>\<close>

definition count_by_make_year :: "frame \<Rightarrow> exn + frame" where
  "count_by_make_year s =
     (if ''Make'' \<notin> set (columns (df s)) then Inl (KeyError ''Make'')
      else if ''Model Year'' \<notin> set (columns (df s)) then Inl (KeyError ''Model Year'')
      else Inr (s\<lparr>ev_counts_by_make_year := groupby_size make_year (rows (df s))\<rparr>))"

text \<open>Line 36: \<open>ev_counts_by_make_year.sort_values(by='Total EVs', ascending=False)\<close>\<close>

definition sort_counts :: "(nat list \<Rightarrow> nat list) \<Rightarrow> frame \<Rightarrow> frame" where
  "sort_counts argsort s =
     s\<lparr>ev_counts_by_make_year := sort_values argsort total_evs (ev_counts_by_make_year s)\<rparr>"

text \<open>Line 39: \<open>ev_counts_by_make_year.head(10)\<close>\<close>

definition top_10 :: "frame \<Rightarrow> frame" where
  "top_10 s = s\<lparr>top_10_ev_counts := head 10 (ev_counts_by_make_year s)\<rparr>"

text \<open>Line 43: \<open>df.groupby('Electric Vehicle Type')['Electric Range'].mean().reset_index(...)\<close>\<close>

definition average_range_by_type :: "frame \<Rightarrow> exn + frame" where
  "average_range_by_type s =
     (if ''Electric Vehicle Type'' \<notin> set (columns (df s))
        then Inl (KeyError ''Electric Vehicle Type'')
      else if ''Electric Range'' \<notin> set (columns (df s))
        then Inl (KeyError ''Column not found: Electric Range'')
      else Inr (s\<lparr>avg_range_by_type :=
                   groupby_mean Electric_Vehicle_Type Electric_Range (rows (df s))\<rparr>))"

text \<open>Line 46: \<open>avg_range_by_type.sort_values(by='Average Electric Range (Miles)', ascending=False)\<close>\<close>

definition sort_averages :: "(rat list \<Rightarrow> nat list) \<Rightarrow> frame \<Rightarrow> frame" where
  "sort_averages argsort s =
     s\<lparr>avg_range_by_type := sort_values argsort average (avg_range_by_type s)\<rparr>"

text \<open>Lines 31 to 46, in order. \<open>argsort_int\<close> and \<open>argsort_float\<close> are numpy's sorts of
  the two aggregate columns.\<close>

definition aggregate ::
  "(nat list \<Rightarrow> nat list) \<Rightarrow> (rat list \<Rightarrow> nat list) \<Rightarrow> frame \<Rightarrow> exn + frame" where
  "aggregate argsort_int argsort_float s =
     and_then (count_by_make_year s) (\<lambda>s.
     and_then (Inr (sort_counts argsort_int s)) (\<lambda>s.
     and_then (Inr (top_10 s)) (\<lambda>s.
     and_then (average_range_by_type s) (\<lambda>s.
     Inr (sort_averages argsort_float s)))))"

section \<open>Loading, and what the page shows\<close>

text \<open>
  What Streamlit is asked to put on the page. Tables and charts carry the table they are
  given; the encodings of the charts are fixed by the script and left out.
\<close>

datatype element =
    Title string
  | Markdown string
  | Error string
  | Header string
  | Info string
  | Subheader string
  | Dataframe_counts "ev_count list"
  | Chart_counts "(ev_count \<times> string) list"
  | Dataframe_averages "avg_range list"
  | Chart_averages "avg_range list"
  | Caption string

text \<open>
  \<open>pd.read_csv\<close> either returns a data frame or raises; the \<open>try\<close> tells
  \<open>FileNotFoundError\<close> from every other \<open>Exception\<close>, whose text is \<open>str(e)\<close>. The file
  system is not part of the program: \<open>read_csv\<close> is a parameter.
\<close>

datatype read_error = FileNotFoundError | Exception string

type_synonym tables = "ev_count list option \<times> avg_range list option"
type_synonym outcome = "element list \<times> tables"

text \<open>
  The body of \<open>load_and_analyze_data\<close> (lines 20 to 48): the elements it puts on the
  page and the pair it returns, or the exception that leaves it.
\<close>

definition load_and_analyze_data ::
  "(nat list \<Rightarrow> nat list) \<Rightarrow> (rat list \<Rightarrow> nat list) \<Rightarrow>
   (string \<Rightarrow> read_error + dataframe) \<Rightarrow> string \<Rightarrow> exn + outcome" where
  "load_and_analyze_data argsort_int argsort_float read_csv file_path =
     (case read_csv file_path of
        Inl FileNotFoundError \<Rightarrow>
          Inr ([Error (''Error: The file '' @ [CHR 0x27] @ file_path @ [CHR 0x27] @
                       '' was not found. Please ensure it is in the correct directory.'')],
               (None, None))
      | Inl (Exception e) \<Rightarrow>
          Inr ([Error (''An error occurred during file loading: '' @ e)], (None, None))
      | Inr d \<Rightarrow>
          and_then (aggregate argsort_int argsort_float (enter d)) (\<lambda>s.
          Inr ([], (Some (top_10_ev_counts s), Some (avg_range_by_type s)))))"

text \<open>
  \<open>@st.cache_data\<close> (line 14), with no \<open>ttl\<close> and no \<open>max_entries\<close>: the wrapper keeps,
  under the argument of the call, what the function returned together with the elements
  it put on the page, and on a later call with that argument replays the elements and
  returns the stored value without running the function. It stores whatever the function
  returns; a call that an exception leaves stores nothing.
\<close>

type_synonym cache = "string \<rightharpoonup> outcome"

definition cache_data ::
  "(string \<Rightarrow> exn + outcome) \<Rightarrow> cache \<Rightarrow> string \<Rightarrow> exn + (outcome \<times> cache)" where
  "cache_data f c arg =
     (case c arg of
        Some out \<Rightarrow> Inr (out, c)
      | None \<Rightarrow> and_then (f arg) (\<lambda>out. Inr (out, c(arg \<mapsto> out))))"

definition cached_load_and_analyze_data ::
  "(nat list \<Rightarrow> nat list) \<Rightarrow> (rat list \<Rightarrow> nat list) \<Rightarrow>
   (string \<Rightarrow> read_error + dataframe) \<Rightarrow> cache \<Rightarrow> string \<Rightarrow> exn + (outcome \<times> cache)" where
  "cached_load_and_analyze_data argsort_int argsort_float read_csv c file_path =
     cache_data (load_and_analyze_data argsort_int argsort_float read_csv) c file_path"

text \<open>
  The cache over the life of the process: it starts empty, and each call in turn finds
  the file system of its moment. A call that raises leaves the cache as it was.
\<close>

definition cache_after ::
  "(nat list \<Rightarrow> nat list) \<Rightarrow> (rat list \<Rightarrow> nat list) \<Rightarrow>
   cache \<Rightarrow> (string \<Rightarrow> read_error + dataframe) \<times> string \<Rightarrow> cache" where
  "cache_after argsort_int argsort_float c call =
     (case cached_load_and_analyze_data argsort_int argsort_float (fst call) c (snd call) of
        Inl e \<Rightarrow> c
      | Inr (out, c') \<Rightarrow> c')"

definition process_cache ::
  "(nat list \<Rightarrow> nat list) \<Rightarrow> (rat list \<Rightarrow> nat list) \<Rightarrow>
   ((string \<Rightarrow> read_error + dataframe) \<times> string) list \<Rightarrow> cache" where
  "process_cache argsort_int argsort_float calls =
     foldl (cache_after argsort_int argsort_float) Map.empty calls"

text \<open>
  One run of the script (lines 52 to 137). Line 83 adds the column \<open>Make_Year\<close> to the
  table of counts before it is charted; \<open>astype_str\<close> is pandas' rendering of a model
  year as text.
\<close>

definition FILE_PATH :: string where
  "FILE_PATH = ''EV Population Dataset.csv''"

definition add_make_year :: "(int \<Rightarrow> string) \<Rightarrow> ev_count \<Rightarrow> ev_count \<times> string" where
  "add_make_year astype_str c = (c, fst (fst c) @ '' ('' @ astype_str (snd (fst c)) @ '')'')"

definition render :: "(int \<Rightarrow> string) \<Rightarrow> tables \<Rightarrow> element list" where
  "render astype_str t =
     (case t of
        (Some counts, Some averages) \<Rightarrow>
          [Header ([CHR 0x31, CHR 0xEF, CHR 0xB8, CHR 0x8F, CHR 0xE2, CHR 0x83, CHR 0xA3] @
                   '' Task 2: Top 10 EV Counts by Make and Model Year''),
           Info ''Aggregated total number of EVs for each Make and Model Year.'',
           Subheader ''Top 10 Aggregated Data Table'',
           Dataframe_counts counts,
           Subheader ''Visualization: Top 10 Counts'',
           Chart_counts (map (add_make_year astype_str) counts),
           Markdown ''---'',
           Header ([CHR 0x32, CHR 0xEF, CHR 0xB8, CHR 0x8F, CHR 0xE2, CHR 0x83, CHR 0xA3] @
                   '' Task 3: Average Electric Range by EV Type''),
           Info ''Calculated average Electric Range for each Electric Vehicle Type, sorted descending.'',
           Subheader ''Average Range Data Table'',
           Dataframe_averages averages,
           Subheader ''Visualization: Average Range'',
           Chart_averages averages,
           Markdown ''---'',
           Caption (''Data Source: **'' @ FILE_PATH @
                    ''** | Analysis performed using pandas and displayed with Streamlit.'')]
      | _ \<Rightarrow> [])"

definition run_script ::
  "(nat list \<Rightarrow> nat list) \<Rightarrow> (rat list \<Rightarrow> nat list) \<Rightarrow> (int \<Rightarrow> string) \<Rightarrow>
   (string \<Rightarrow> read_error + dataframe) \<Rightarrow> cache \<Rightarrow> exn + (element list \<times> cache)" where
  "run_script argsort_int argsort_float astype_str read_csv c =
     and_then (cached_load_and_analyze_data argsort_int argsort_float read_csv c FILE_PATH)
       (\<lambda>(out, c').
          Inr ([Title ([CHR 0xF0, CHR 0x9F, CHR 0x94, CHR 0x8C] @
                       '' Electric Vehicle Population Dataset Analysis''),
                Markdown ''---''] @ fst out @ render astype_str (snd out), c'))"

section \<open>The properties stated of the tables\<close>

text \<open>
  The arithmetic mean of a list of numbers, as the specification words it: the sum over
  the number of values. Of no values there is no mean; pandas shows NaN there.
\<close>

definition arithmetic_mean :: "rat list \<Rightarrow> rat option" where
  "arithmetic_mean xs = (if xs = [] then None else Some (sum_list xs / of_nat (length xs)))"

text \<open>
  Comparison of two cells of a float column: as in IEEE arithmetic and in Python, any
  comparison with NaN is false. A column is non-increasing when each cell is greater than
  or equal to the next.
\<close>

definition float_ge :: "rat option \<Rightarrow> rat option \<Rightarrow> bool" where
  "float_ge x y = (case x of None \<Rightarrow> False | Some a \<Rightarrow> (case y of None \<Rightarrow> False | Some b \<Rightarrow> b \<le> a))"

fun non_increasing :: "rat option list \<Rightarrow> bool" where
  "non_increasing (x # y # zs) = (float_ge x y \<and> non_increasing (y # zs))"
| "non_increasing zs = True"

section \<open>A small dataset\<close>

definition vehicle :: "string option \<Rightarrow> int option \<Rightarrow> string option \<Rightarrow> rat option \<Rightarrow> row" where
  "vehicle m y t r = \<lparr>Make = m, Model_Year = y, Electric_Vehicle_Type = t, Electric_Range = r\<rparr>"

definition fleet :: dataframe where
  "fleet =
     \<lparr>columns = [''VIN'', ''Make'', ''Model Year'', ''Electric Vehicle Type'', ''Electric Range''],
      rows =
        [vehicle (Some ''Tesla'') (Some 2020) (Some ''BEV'') (Some 250),
         vehicle (Some ''Tesla'') (Some 2020) (Some ''BEV'') (Some 270),
         vehicle (Some ''Nissan'') (Some 2019) (Some ''BEV'') (Some 150),
         vehicle (Some ''Toyota'') (Some 2021) (Some ''PHEV'') None,
         vehicle (Some ''Kia'') (Some 2021) None (Some 30),
         vehicle (Some ''Kia'') None (Some ''BEV'') None]\<rparr>"

text \<open>Two file systems: one where every path holds \<open>fleet\<close>, one where no path exists.\<close>

definition fleet_on_disk :: "string \<Rightarrow> read_error + dataframe" where
  "fleet_on_disk file_path = Inr fleet"

definition empty_disk :: "string \<Rightarrow> read_error + dataframe" where
  "empty_disk file_path = Inl FileNotFoundError"

section \<open>Sorting: what any \<open>argsort\<close> gives\<close>

lemma mset_filter_split: "mset (filter P xs) + mset (filter (\<lambda>x. \<not> P x) xs) = mset xs"
  by (induction xs) simp_all

lemma insertion_argsort_ok: "is_argsort (insertion_argsort :: 'a::linorder list \<Rightarrow> nat list)"
proof -
  have "mset (insertion_argsort xs) = mset [0..<length xs]" for xs :: "'a list"
  proof -
    have z: "map snd (zip xs [0..<length xs]) = [0..<length xs]"
      by (rule map_snd_zip) simp
    have "mset (map snd (sort_key fst (zip xs [0..<length xs]))) = mset (map snd (zip xs [0..<length xs]))"
      by (simp only: mset_map mset_sort)
    then show ?thesis by (simp only: z insertion_argsort_def)
  qed
  moreover have "sorted (map (\<lambda>i. xs ! i) (insertion_argsort xs))" for xs :: "'a list"
  proof -
    let ?zs = "zip xs [0..<length xs]"
    have "\<forall>p \<in> set (sort_key fst ?zs). xs ! snd p = fst p"
      by (auto simp: set_zip)
    then have "map (\<lambda>i. xs ! i) (insertion_argsort xs) = map fst (sort_key fst ?zs)"
      by (simp add: insertion_argsort_def)
    then show ?thesis by (simp only: sorted_sort_key)
  qed
  ultimately show ?thesis unfolding is_argsort_def by blast
qed

lemma argsort_in_range:
  assumes "is_argsort a" and "j \<in> set (a xs)"
  shows "j < length xs"
proof -
  have "mset (a xs) = mset [0..<length xs]"
    using assms(1) unfolding is_argsort_def by blast
  then have "set (a xs) = set [0..<length xs]"
    by (rule mset_eq_setD)
  with assms(2) show ?thesis by simp
qed


lemma mset_nargsort:
  assumes "is_argsort a"
  shows "mset (nargsort a items) = mset [0..<length items]"
proof -
  let ?idx = "[0..<length items]"
  let ?nn = "rev (filter (\<lambda>i. items ! i \<noteq> None) ?idx)"
  let ?vals = "map (\<lambda>i. the (items ! i)) ?nn"
  have "mset (a ?vals) = mset [0..<length ?vals]"
    using assms unfolding is_argsort_def by blast
  then have p: "mset (a ?vals) = mset [0..<length ?nn]"
    by (simp only: length_map)
  have "mset (map (\<lambda>j. ?nn ! j) (a ?vals)) = image_mset (\<lambda>j. ?nn ! j) (mset (a ?vals))"
    by (simp only: mset_map)
  also have "\<dots> = mset (map (\<lambda>j. ?nn ! j) [0..<length ?nn])"
    by (simp only: p mset_map)
  also have "\<dots> = mset ?nn" by (simp only: map_nth)
  also have "\<dots> = mset (filter (\<lambda>i. items ! i \<noteq> None) ?idx)" by (simp only: mset_rev)
  finally have m: "mset (map (\<lambda>j. ?nn ! j) (a ?vals)) = mset (filter (\<lambda>i. items ! i \<noteq> None) ?idx)" .
  have "nargsort a items = rev (map (\<lambda>j. ?nn ! j) (a ?vals)) @ filter (\<lambda>i. items ! i = None) ?idx"
    by (simp only: nargsort_def Let_def)
  then have "mset (nargsort a items) =
      mset (filter (\<lambda>i. items ! i \<noteq> None) ?idx) + mset (filter (\<lambda>i. \<not> items ! i \<noteq> None) ?idx)"
    by (simp only: mset_append mset_rev m not_not)
  then show ?thesis by (simp only: mset_filter_split)
qed

lemma mset_sort_values:
  assumes "is_argsort a"
  shows "mset (sort_values a col rs) = mset rs"
proof -
  have "mset (sort_values a col rs) = image_mset (\<lambda>i. rs ! i) (mset (nargsort a (map col rs)))"
    by (simp only: sort_values_def take_rows_def mset_map)
  also have "\<dots> = image_mset (\<lambda>i. rs ! i) (mset [0..<length rs])"
    by (simp only: mset_nargsort[OF assms] length_map)
  also have "\<dots> = mset (map (\<lambda>i. rs ! i) [0..<length rs])" by (simp only: mset_map)
  also have "\<dots> = mset rs" by (simp only: map_nth)
  finally show ?thesis .
qed


lemma col_sort_values:
  assumes "is_argsort a"
  shows "\<exists>xs k. map col (sort_values a col rs) = map Some xs @ replicate k None \<and> sorted (rev xs)"
proof -
  let ?items = "map col rs"
  let ?idx = "[0..<length ?items]"
  let ?nn = "rev (filter (\<lambda>i. ?items ! i \<noteq> None) ?idx)"
  let ?vals = "map (\<lambda>i. the (?items ! i)) ?nn"
  let ?nan = "filter (\<lambda>i. ?items ! i = None) ?idx"
  let ?p = "a ?vals"
  let ?xs = "rev (map (\<lambda>j. ?vals ! j) ?p)"
  have rng: "j < length ?nn" if "j \<in> set ?p" for j
    using argsort_in_range[OF assms that] by (simp only: length_map)
  have nn: "?nn ! j < length rs \<and> ?items ! (?nn ! j) \<noteq> None" if "j < length ?nn" for j
  proof -
    have "?nn ! j \<in> set ?nn" using that by (rule nth_mem)
    moreover have "\<forall>i \<in> set ?nn. i < length rs \<and> ?items ! i \<noteq> None" by auto
    ultimately show ?thesis by blast
  qed
  have front: "map (\<lambda>j. col (rs ! (?nn ! j))) ?p = map Some (map (\<lambda>j. ?vals ! j) ?p)"
  proof -
    have f: "col (rs ! (?nn ! j)) = Some (?vals ! j)" if "j \<in> set ?p" for j
    proof -
      have j: "j < length ?nn" using that by (rule rng)
      define i where "i = ?nn ! j"
      have i: "i < length rs" and v: "?items ! i \<noteq> None"
        using nn[OF j] unfolding i_def by blast+
      have c: "?items ! i = col (rs ! i)" using i by (rule nth_map)
      have "?vals ! j = the (?items ! i)"
        unfolding i_def using j by (rule nth_map)
      with v c have "col (rs ! i) = Some (?vals ! j)" by (metis option.collapse)
      then show ?thesis unfolding i_def .
    qed
    have "map (\<lambda>j. col (rs ! (?nn ! j))) ?p = map (\<lambda>j. Some (?vals ! j)) ?p"
      by (rule map_cong[OF refl]) (rule f)
    then show ?thesis by (simp only: map_map o_def)
  qed
  have tail_none: "map (\<lambda>i. col (rs ! i)) ?nan = replicate (length ?nan) None"
  proof -
    have n: "col (rs ! i) = None" if "i \<in> set ?nan" for i
    proof -
      have i: "i < length rs" and v: "?items ! i = None" using that by simp_all
      have "?items ! i = col (rs ! i)" using i by (rule nth_map)
      with v show ?thesis by simp
    qed
    have "map (\<lambda>i. col (rs ! i)) ?nan = map (\<lambda>i. None) ?nan"
      by (rule map_cong[OF refl]) (rule n)
    then show ?thesis by (simp only: map_replicate_const)
  qed
  have "sort_values a col rs = map (\<lambda>i. rs ! i) (rev (map (\<lambda>j. ?nn ! j) ?p) @ ?nan)"
    by (simp only: sort_values_def take_rows_def nargsort_def Let_def)
  then have "map col (sort_values a col rs) =
      rev (map (\<lambda>j. col (rs ! (?nn ! j))) ?p) @ map (\<lambda>i. col (rs ! i)) ?nan"
    by (simp only: map_append map_map o_def rev_map)
  then have "map col (sort_values a col rs) = map Some ?xs @ replicate (length ?nan) None"
    by (simp only: front tail_none rev_map)
  moreover have "sorted (rev ?xs)"
    using assms unfolding is_argsort_def by (simp only: rev_rev_ident)
  ultimately show ?thesis by blast
qed

section \<open>Grouping\<close>

lemma set_map_filter: "set (List.map_filter f xs) = {y. \<exists>x \<in> set xs. f x = Some y}"
  by (induction xs) (auto simp: List.map_filter_simps split: option.splits)

lemma set_group_keys: "set (group_keys key rs) = {k. \<exists>r \<in> set rs. key r = Some k}"
  by (simp add: group_keys_def set_map_filter)

lemma distinct_group_keys: "distinct (group_keys key rs)"
  by (simp add: group_keys_def)

lemma length_filter_disjoint:
  "(\<And>x. x \<in> set xs \<Longrightarrow> \<not> (P x \<and> Q x)) \<Longrightarrow>
   length (filter P xs) + length (filter Q xs) = length (filter (\<lambda>x. P x \<or> Q x) xs)"
  by (induction xs) auto

lemma sum_group_sizes:
  "distinct ks \<Longrightarrow>
   sum_list (map (\<lambda>k. length (group_rows key rs k)) ks) =
   length (filter (\<lambda>r. \<exists>k \<in> set ks. key r = Some k) rs)"
proof (induction ks)
  case Nil
  then show ?case by simp
next
  case (Cons k ks)
  have "length (filter (\<lambda>r. key r = Some k) rs) +
        length (filter (\<lambda>r. \<exists>k' \<in> set ks. key r = Some k') rs) =
        length (filter (\<lambda>r. key r = Some k \<or> (\<exists>k' \<in> set ks. key r = Some k')) rs)"
    using Cons.prems by (intro length_filter_disjoint) auto
  with Cons show ?case by (simp add: group_rows_def)
qed

lemma sum_groupby_size:
  "sum_list (map snd (groupby_size key rs)) = length (filter (\<lambda>r. key r \<noteq> None) rs)"
proof -
  have "sum_list (map snd (groupby_size key rs)) =
        length (filter (\<lambda>r. \<exists>k \<in> set (group_keys key rs). key r = Some k) rs)"
    by (simp add: groupby_size_def o_def sum_group_sizes[OF distinct_group_keys])
  also have "\<dots> = length (filter (\<lambda>r. key r \<noteq> None) rs)"
    by (rule arg_cong[where f = length], rule filter_cong[OF refl]) (auto simp: set_group_keys)
  finally show ?thesis .
qed

lemma fold_observe:
  "fold observe vs acc =
   (fst acc + sum_list (List.map_filter id vs), snd acc + length (List.map_filter id vs))"
  by (induction vs arbitrary: acc)
     (auto simp: observe_def List.map_filter_simps split: option.splits)

lemma mean_arithmetic_mean: "mean vs = arithmetic_mean (List.map_filter id vs)"
  by (simp add: mean_def arithmetic_mean_def fold_observe Let_def)

lemma map_filter_map: "List.map_filter id (map f xs) = List.map_filter f xs"
  by (induction xs) (auto simp: List.map_filter_simps split: option.splits)

lemma make_year_present: "make_year r \<noteq> None \<longleftrightarrow> Make r \<noteq> None \<and> Model_Year r \<noteq> None"
  by (simp add: make_year_def split: option.splits)

section \<open>Running the function\<close>

lemma and_then_Inr: "and_then r f = Inr y \<longleftrightarrow> (\<exists>x. r = Inr x \<and> f x = Inr y)"
  by (cases r) (simp_all add: and_then_def)

lemma aggregate_Inr:
  "aggregate ai af s = Inr s' \<longleftrightarrow>
     {''Make'', ''Model Year'', ''Electric Vehicle Type'', ''Electric Range''} \<subseteq> set (columns (df s)) \<and>
     s' = s\<lparr>ev_counts_by_make_year := sort_values ai total_evs (groupby_size make_year (rows (df s))),
            top_10_ev_counts := head 10 (sort_values ai total_evs (groupby_size make_year (rows (df s)))),
            avg_range_by_type := sort_values af average
               (groupby_mean Electric_Vehicle_Type Electric_Range (rows (df s)))\<rparr>"
  by (auto simp: aggregate_def and_then_Inr count_by_make_year_def sort_counts_def top_10_def
      average_range_by_type_def sort_averages_def)

lemma load_loaded:
  assumes "read_csv file_path = Inr d"
  shows "load_and_analyze_data ai af read_csv file_path = Inr out \<longleftrightarrow>
     (\<exists>s. aggregate ai af (enter d) = Inr s \<and>
          out = ([], (Some (top_10_ev_counts s), Some (avg_range_by_type s))))"
  using assms by (auto simp: load_and_analyze_data_def and_then_Inr)


lemma fleet_loaded:
  "load_and_analyze_data insertion_argsort insertion_argsort fleet_on_disk ''EV.csv'' =
     Inr ([],
          Some [((''Tesla'', 2020), 2), ((''Kia'', 2021), 1), ((''Nissan'', 2019), 1),
                ((''Toyota'', 2021), 1)],
          Some [(''BEV'', Some (670 / 3)), (''PHEV'', None)])"
  by code_simp

lemma fleet_read: "fleet_on_disk file_path = Inr fleet"
  by (simp add: fleet_on_disk_def)

lemma sum_list_sort_values:
  assumes "is_argsort a"
  shows "sum_list (map f (sort_values a col rs)) = sum_list (map (f :: 'r \<Rightarrow> nat) rs)"
proof -
  have "mset (map f (sort_values a col rs)) = mset (map f rs)"
    by (simp only: mset_map mset_sort_values[OF assms])
  then have "sum_mset (mset (map f (sort_values a col rs))) = sum_mset (mset (map f rs))"
    by (rule arg_cong)
  then show ?thesis by (simp only: sum_mset_sum_list)
qed

section \<open>The sum of the counts\<close>

text \<open>
  Claim C4. For every dataset that loads, the counts of the groups of line 33, and
  likewise of the sorted table of line 36 of which table A is the first ten rows, add up
  to the number of input rows in which both \<open>Make\<close> and \<open>Model Year\<close> are present.
\<close>

theorem total_evs_sum_to_rows_with_make_and_year:
  assumes "read_csv file_path = Inr d"
    and "load_and_analyze_data argsort_int argsort_float read_csv file_path = Inr out"
    and "is_argsort argsort_int"
  shows "\<exists>s0 s. count_by_make_year (enter d) = Inr s0 \<and>
           aggregate argsort_int argsort_float (enter d) = Inr s \<and>
           fst (snd out) = Some (head 10 (ev_counts_by_make_year s)) \<and>
           sum_list (map snd (ev_counts_by_make_year s0)) =
             length (filter (\<lambda>r. Make r \<noteq> None \<and> Model_Year r \<noteq> None) (rows d)) \<and>
           sum_list (map snd (ev_counts_by_make_year s)) =
             length (filter (\<lambda>r. Make r \<noteq> None \<and> Model_Year r \<noteq> None) (rows d))"
proof -
  let ?g = "groupby_size make_year (rows d)"
  let ?n = "length (filter (\<lambda>r. Make r \<noteq> None \<and> Model_Year r \<noteq> None) (rows d))"
  from assms(1,2) obtain s where s: "aggregate argsort_int argsort_float (enter d) = Inr s"
    and out: "out = ([], (Some (top_10_ev_counts s), Some (avg_range_by_type s)))"
    by (auto simp: load_loaded)
  from s have cols: "''Make'' \<in> set (columns d)" "''Model Year'' \<in> set (columns d)"
    and full: "ev_counts_by_make_year s = sort_values argsort_int total_evs ?g"
    and top: "top_10_ev_counts s = head 10 (sort_values argsort_int total_evs ?g)"
    by (auto simp: aggregate_Inr enter_def)
  have s0: "count_by_make_year (enter d) = Inr ((enter d)\<lparr>ev_counts_by_make_year := ?g\<rparr>)"
    using cols by (simp add: count_by_make_year_def enter_def)
  have n: "sum_list (map snd ?g) = ?n"
    by (simp only: sum_groupby_size make_year_present)
  have "sum_list (map snd (ev_counts_by_make_year s)) = ?n"
    by (simp only: full sum_list_sort_values[OF assms(3)] n)
  moreover have "sum_list (map snd (ev_counts_by_make_year ((enter d)\<lparr>ev_counts_by_make_year := ?g\<rparr>))) = ?n"
    using n by simp
  moreover have "fst (snd out) = Some (head 10 (ev_counts_by_make_year s))"
    by (simp add: out top full)
  ultimately show ?thesis using s0 s by blast
qed

theorem total_evs_sum_to_rows_with_make_and_year_witness:
  "length (filter (\<lambda>r. Make r \<noteq> None \<and> Model_Year r \<noteq> None) (rows fleet)) = 5 \<and>
   (\<exists>s0 s. count_by_make_year (enter fleet) = Inr s0 \<and>
           aggregate insertion_argsort insertion_argsort (enter fleet) = Inr s \<and>
           Some [((''Tesla'', 2020), 2), ((''Kia'', 2021), 1), ((''Nissan'', 2019), 1),
                 ((''Toyota'', 2021), 1)] = Some (head 10 (ev_counts_by_make_year s)) \<and>
           sum_list (map snd (ev_counts_by_make_year s0)) = 5 \<and>
           sum_list (map snd (ev_counts_by_make_year s)) = 5)"
proof -
  have n: "length (filter (\<lambda>r. Make r \<noteq> None \<and> Model_Year r \<noteq> None) (rows fleet)) = 5"
    by (simp add: fleet_def vehicle_def)
  show ?thesis
    using total_evs_sum_to_rows_with_make_and_year
      [OF fleet_read fleet_loaded insertion_argsort_ok, unfolded n] n
    by simp
qed

section \<open>Table A\<close>

lemma loaded_tables:
  assumes "read_csv file_path = Inr d"
    and "load_and_analyze_data ai af read_csv file_path = Inr (es, tA, tB)"
  shows "es = []"
    and "tA = Some (head 10 (sort_values ai total_evs (groupby_size make_year (rows d))))"
    and "tB = Some (sort_values af average
                      (groupby_mean Electric_Vehicle_Type Electric_Range (rows d)))"
  using assms by (auto simp: load_loaded aggregate_Inr enter_def)

lemma map_Some_eq_append_replicate:
  assumes "map Some ys = map Some xs @ replicate k None"
  shows "ys = xs"
proof -
  have "set (replicate k None) \<subseteq> set (map Some ys)"
    by (simp only: assms set_append) blast
  then have "k = 0" by (cases k) auto
  with assms have "map Some ys = map Some xs" by simp
  then show ?thesis by (simp add: inj_map_eq_map)
qed

lemma sort_values_descending:
  assumes "is_argsort a" and "\<And>r. col r = Some (f r)"
  shows "sorted_wrt (\<lambda>x y. f y \<le> f x) (sort_values a col rs)"
proof -
  let ?S = "sort_values a col rs"
  obtain xs k where c: "map col ?S = map Some xs @ replicate k None" and s: "sorted (rev xs)"
    using col_sort_values[OF assms(1)] by blast
  have "map col ?S = map Some (map f ?S)" by (simp add: assms(2))
  with c have "map f ?S = xs" by (metis map_Some_eq_append_replicate)
  with s have "sorted_wrt (\<lambda>x y. y \<le> x) (map f ?S)" by (simp add: sorted_wrt_rev)
  then show ?thesis by (simp add: sorted_wrt_map)
qed

text \<open>
  Claim C2. For every dataset that loads, table A as \<open>load_and_analyze_data\<close> returns it
  has at most 10 rows, and the \<open>Total EVs\<close> of a row is greater than or equal to that of
  every later row, the next one in particular. The order among equal counts is numpy's;
  the statement holds for every sort that is a sort.
\<close>

theorem table_A_at_most_10_rows_non_increasing:
  assumes "read_csv file_path = Inr d"
    and "load_and_analyze_data argsort_int argsort_float read_csv file_path = Inr (es, tA, tB)"
    and "is_argsort argsort_int"
  shows "\<exists>A. tA = Some A \<and> length A \<le> 10 \<and> sorted_wrt (\<lambda>x y. snd y \<le> snd x) A"
proof -
  let ?S = "sort_values argsort_int total_evs (groupby_size make_year (rows d))"
  have tA: "tA = Some (head 10 ?S)" using loaded_tables(2)[OF assms(1,2)] .
  have "sorted_wrt (\<lambda>x y. snd y \<le> snd x) ?S"
    using assms(3) by (rule sort_values_descending) (simp add: total_evs_def)
  then have "sorted_wrt (\<lambda>x y. snd y \<le> snd x) (head 10 ?S)"
    unfolding head_def by (rule sorted_wrt_take)
  moreover have "length (head 10 ?S) \<le> 10" by (simp add: head_def)
  ultimately show ?thesis using tA by blast
qed

theorem table_A_at_most_10_rows_non_increasing_witness:
  "\<exists>A. Some ([((''Tesla'', 2020), 2), ((''Kia'', 2021), 1), ((''Nissan'', 2019), 1),
               ((''Toyota'', 2021), 1)] :: ev_count list) = Some A \<and>
       length A \<le> 10 \<and> sorted_wrt (\<lambda>x y. snd y \<le> snd x) A"
  using table_A_at_most_10_rows_non_increasing[OF fleet_read fleet_loaded insertion_argsort_ok] .

section \<open>Table B\<close>

lemma groupby_mean_keys: "map fst (groupby_mean key val rs) = group_keys key rs"
  by (simp add: groupby_mean_def o_def)

lemma sort_values_keys:
  assumes "is_argsort a"
  shows "distinct (map fst (sort_values a col (groupby_mean key val rs)))"
    and "set (map fst (sort_values a col (groupby_mean key val rs))) =
         {k. \<exists>r \<in> set rs. key r = Some k}"
proof -
  let ?G = "groupby_mean key val rs"
  have "mset (map fst (sort_values a col ?G)) = mset (map fst ?G)"
    by (simp only: mset_map mset_sort_values[OF assms])
  then have m: "mset (map fst (sort_values a col ?G)) = mset (group_keys key rs)"
    by (simp only: groupby_mean_keys)
  show "distinct (map fst (sort_values a col ?G))"
    using mset_eq_imp_distinct_iff[OF m] distinct_group_keys by blast
  show "set (map fst (sort_values a col ?G)) = {k. \<exists>r \<in> set rs. key r = Some k}"
    using mset_eq_setD[OF m] by (simp only: set_group_keys)
qed

text \<open>
  Claim C3 as stated fails where a vehicle type has no row with an \<open>Electric Range\<close>:
  its mean is NaN, its row is kept and sorted last, and a number followed by NaN is not
  greater than or equal to it. In \<open>fleet\<close> the only PHEV has no range.
\<close>

theorem table_B_average_column_counterexample:
  "load_and_analyze_data insertion_argsort insertion_argsort fleet_on_disk ''EV.csv'' =
     Inr ([],
          Some [((''Tesla'', 2020), 2), ((''Kia'', 2021), 1), ((''Nissan'', 2019), 1),
                ((''Toyota'', 2021), 1)],
          Some [(''BEV'', Some (670 / 3)), (''PHEV'', None)]) \<and>
   \<not> non_increasing (map average [(''BEV'', Some (670 / 3)), (''PHEV'', None)])"
  by (simp add: fleet_loaded average_def float_ge_def)

text \<open>
  Claim C3, amended. For every dataset that loads, table B has exactly one row for each
  distinct \<open>Electric Vehicle Type\<close> present in the input rows; the averages that are
  defined are non-increasing from row to row, and the rows whose average is missing
  (NaN) come after them.
\<close>

theorem table_B_one_row_per_type_defined_averages_non_increasing:
  assumes "read_csv file_path = Inr d"
    and "load_and_analyze_data argsort_int argsort_float read_csv file_path = Inr (es, tA, tB)"
    and "is_argsort argsort_float"
  shows "\<exists>B. tB = Some B \<and> distinct (map fst B) \<and>
           set (map fst B) = {t. \<exists>r \<in> set (rows d). Electric_Vehicle_Type r = Some t} \<and>
           (\<exists>xs k. map average B = map Some xs @ replicate k None \<and>
                   sorted_wrt (\<lambda>x y. y \<le> x) xs)"
proof -
  let ?G = "groupby_mean Electric_Vehicle_Type Electric_Range (rows d)"
  let ?B = "sort_values argsort_float average ?G"
  have tB: "tB = Some ?B" using loaded_tables(3)[OF assms(1,2)] .
  obtain xs k where c: "map average ?B = map Some xs @ replicate k None" and s: "sorted (rev xs)"
    using col_sort_values[OF assms(3)] by blast
  from s have "sorted_wrt (\<lambda>x y. y \<le> x) xs" by (simp add: sorted_wrt_rev)
  with c have "\<exists>xs k. map average ?B = map Some xs @ replicate k None \<and>
      sorted_wrt (\<lambda>x y. y \<le> x) xs" by blast
  with tB sort_values_keys[OF assms(3), of average Electric_Vehicle_Type Electric_Range "rows d"]
  show ?thesis by blast
qed

theorem table_B_one_row_per_type_defined_averages_non_increasing_witness:
  "\<exists>B. Some ([(''BEV'', Some (670 / 3)), (''PHEV'', None)] :: avg_range list) = Some B \<and>
       distinct (map fst B) \<and>
       set (map fst B) = {t. \<exists>r \<in> set (rows fleet). Electric_Vehicle_Type r = Some t} \<and>
       (\<exists>xs k. map average B = map Some xs @ replicate k None \<and>
               sorted_wrt (\<lambda>x y. y \<le> x) xs)"
  using table_B_one_row_per_type_defined_averages_non_increasing
    [OF fleet_read fleet_loaded insertion_argsort_ok] .

lemma set_sort_values:
  assumes "is_argsort a"
  shows "set (sort_values a col rs) = set rs"
  using mset_sort_values[OF assms, of col rs] by (rule mset_eq_setD)

lemma groupby_mean_row:
  assumes "(k, v) \<in> set (groupby_mean key val rs)"
  shows "v = arithmetic_mean (List.map_filter val (filter (\<lambda>r. key r = Some k) rs))"
  using assms
  by (auto simp: groupby_mean_def group_rows_def mean_arithmetic_mean map_filter_map)

text \<open>
  Claim C5. For every dataset that loads and every row of table B, the average of the row
  is the arithmetic mean of the \<open>Electric Range\<close> values of exactly the input rows of that
  row's type, rows with a missing range left out of both the sum and the divisor. Where
  no value is left there is no mean, and the cell is NaN.
\<close>

theorem table_B_average_is_arithmetic_mean:
  assumes "read_csv file_path = Inr d"
    and "load_and_analyze_data argsort_int argsort_float read_csv file_path = Inr (es, tA, tB)"
    and "is_argsort argsort_float"
  shows "\<exists>B. tB = Some B \<and>
           (\<forall>(t, v) \<in> set B.
              v = arithmetic_mean
                    (List.map_filter Electric_Range
                       (filter (\<lambda>r. Electric_Vehicle_Type r = Some t) (rows d))))"
proof -
  let ?G = "groupby_mean Electric_Vehicle_Type Electric_Range (rows d)"
  let ?B = "sort_values argsort_float average ?G"
  have tB: "tB = Some ?B" using loaded_tables(3)[OF assms(1,2)] .
  have "set ?B = set ?G" using assms(3) by (rule set_sort_values)
  then have "\<forall>(t, v) \<in> set ?B.
      v = arithmetic_mean
            (List.map_filter Electric_Range
               (filter (\<lambda>r. Electric_Vehicle_Type r = Some t) (rows d)))"
    using groupby_mean_row by fastforce
  with tB show ?thesis by blast
qed

theorem table_B_average_is_arithmetic_mean_witness:
  "Some (670 / 3) =
     arithmetic_mean
       (List.map_filter Electric_Range
          (filter (\<lambda>r. Electric_Vehicle_Type r = Some ''BEV'') (rows fleet))) \<and>
   List.map_filter Electric_Range
     (filter (\<lambda>r. Electric_Vehicle_Type r = Some ''BEV'') (rows fleet)) = [250, 270, 150] \<and>
   None =
     arithmetic_mean
       (List.map_filter Electric_Range
          (filter (\<lambda>r. Electric_Vehicle_Type r = Some ''PHEV'') (rows fleet)))"
proof -
  have vals: "List.map_filter Electric_Range
     (filter (\<lambda>r. Electric_Vehicle_Type r = Some ''BEV'') (rows fleet)) = [250, 270, 150]"
    by (simp add: fleet_def vehicle_def List.map_filter_simps)
  from table_B_average_is_arithmetic_mean[OF fleet_read fleet_loaded insertion_argsort_ok]
  have "\<forall>(t, v) \<in> set [(''BEV'', Some (670 / 3 :: rat)), (''PHEV'', None)].
      v = arithmetic_mean
            (List.map_filter Electric_Range
               (filter (\<lambda>r. Electric_Vehicle_Type r = Some t) (rows fleet)))"
    by blast
  then show ?thesis using vals by simp
qed

end
